theory Spec2Isabelle
  imports Complex_Main "HOL-Library.AList"
begin

section \<open>LogGrid: a shallow embedding of \<^verbatim>\<open>src/logGrid.js\<close>\<close>

text \<open>
  The grid object of \<^verbatim>\<open>logGrid.js\<close> owns an array \<^verbatim>\<open>times\<close> of 96 quarter-hour
  slots, a drag state, and four mouse handlers that edit the array. The embedding below
  follows the source function by function. Its conventions:
  \<^item> a JavaScript value stored in a slot is a number, a string or \<^verbatim>\<open>undefined\<close>;
  \<^item> a JavaScript array is its list of elements (a hole reads as \<^verbatim>\<open>undefined\<close>)
    together with the properties written under negative keys, which are not elements;
  \<^item> a number is a double: a rational, or one of the three non-finite values. Pixel
    coordinates, sizes, slot indices and counts are integers far below \<open>2\<^sup>5\<^sup>3\<close>, on
    which addition, subtraction and the division of a count by 4 are exact; they are
    \<open>int\<close>, \<open>nat\<close> and \<open>rat\<close>. The two divisions of \<^verbatim>\<open>getMouseTime\<close> round, and
    are modelled with the rounding of IEEE 754 (to nearest, ties to even). The sign of
    zero is not modelled;
  \<^item> a thrown \<^verbatim>\<open>TypeError\<close> is the left injection of a sum, carrying the state at the
    moment of the throw (the assignments made before it persist);
  \<^item> the two canvases are not part of the state: \<^verbatim>\<open>drawLogGrid\<close>,
    \<^verbatim>\<open>drawDutyStatusLine\<close> and \<^verbatim>\<open>clearDutyLines\<close> read the grid and write only to
    a canvas, so they are the identity on the state below and are left out;
  \<^item> \<^verbatim>\<open>this.callBack\<close> is supplied by the host; the state counts its invocations.
\<close>

subsection \<open>Values, arrays and numbers\<close>

datatype jsval = Num int | Str string | Undefined

record jsarray =
  elems :: "jsval list"
  props :: "(int \<times> jsval) list"

text \<open>
  \<^verbatim>\<open>a[i] = v\<close>: inside the array the element is replaced; at or beyond the length the
  array grows, the skipped positions being holes; a negative \<open>i\<close> is no array index and
  only creates or updates the property of that name. The indices written by the grid are
  32-bit integers, below the largest array index.
\<close>

definition array_set :: "jsarray \<Rightarrow> int \<Rightarrow> jsval \<Rightarrow> jsarray" where
  "array_set a i v =
     (if i < 0 then a\<lparr>props := AList.update i v (props a)\<rparr>
      else if nat i < length (elems a) then a\<lparr>elems := (elems a)[nat i := v]\<rparr>
      else a\<lparr>elems := elems a @ replicate (nat i - length (elems a)) Undefined @ [v]\<rparr>)"

definition digit_char :: "nat \<Rightarrow> char" where
  "digit_char n = ''0123456789'' ! n"

function digits :: "nat \<Rightarrow> string" where
  "digits n = (if n < 10 then [digit_char n] else digits (n div 10) @ [digit_char (n mod 10)])"
  by pat_completeness auto
termination
  by (relation "measure (\<lambda>n. n)") auto

declare digits.simps [simp del]

text \<open>The decimal string of an integral number, as \<^verbatim>\<open>join\<close> and \<^verbatim>\<open>RegExp\<close> produce it.\<close>

definition numberToString :: "int \<Rightarrow> string" where
  "numberToString n = (if n < 0 then CHR ''-'' # digits (nat (- n)) else digits (nat n))"

text \<open>\<^verbatim>\<open>Array.prototype.join('')\<close>: \<^verbatim>\<open>undefined\<close> and holes contribute the empty string.\<close>

fun join_item :: "jsval \<Rightarrow> string" where
  "join_item (Num n) = numberToString n"
| "join_item (Str s) = s"
| "join_item Undefined = []"

definition join :: "jsarray \<Rightarrow> string" where
  "join a = concat (map join_item (elems a))"

datatype number = Finite rat | Infinity | NegInfinity | NaN

text \<open>
  Rounding a rational to the nearest double. \<open>exponent q\<close> is the integer \<open>e\<close> with
  \<open>2\<^sup>e \<le> q < 2\<^sup>e\<^sup>+\<^sup>1\<close> for a positive \<open>q\<close>; a double has 53 significant bits, exponents
  from \<open>-1022\<close> (below it the spacing stays \<open>2\<^sup>-\<^sup>1\<^sup>0\<^sup>7\<^sup>4\<close>) to 1023 (beyond it the result
  is infinite).
\<close>

function bit_length :: "int \<Rightarrow> int" where
  "bit_length n = (if n \<le> 0 then 0 else 1 + bit_length (n div 2))"
  by pat_completeness auto
termination
  by (relation "measure nat") auto

declare bit_length.simps [simp del]

definition pow2 :: "int \<Rightarrow> rat" where
  "pow2 k = (if 0 \<le> k then 2 ^ nat k else 1 / 2 ^ nat (- k))"

definition exponent :: "rat \<Rightarrow> int" where
  "exponent q =
     (case quotient_of q of (a, b) \<Rightarrow>
        let d = bit_length a - bit_length b
        in if pow2 d \<le> q then d else d - 1)"

definition round_half_even :: "rat \<Rightarrow> int" where
  "round_half_even m =
     (let n = \<lfloor>m\<rfloor>; r = m - of_int n
      in if r < 1 / 2 then n else if 1 / 2 < r then n + 1 else if even n then n else n + 1)"

definition to_double :: "rat \<Rightarrow> number" where
  "to_double q =
     (if q = 0 then Finite 0
      else
        let e = exponent \<bar>q\<bar> in
        if 1024 \<le> e then (if 0 < q then Infinity else NegInfinity)
        else
          let s = max e (- 1022) - 52;
              n = round_half_even (\<bar>q\<bar> / pow2 s)
          in if e = 1023 \<and> n = 2 ^ 53 then (if 0 < q then Infinity else NegInfinity)
             else if 0 < q then Finite (of_int n * pow2 s)
             else Finite (- (of_int n * pow2 s)))"

text \<open>\<^verbatim>\<open>x / y\<close> on doubles; a zero is \<open>+0\<close>.\<close>

fun js_div :: "number \<Rightarrow> number \<Rightarrow> number" where
  "js_div NaN y = NaN"
| "js_div x NaN = NaN"
| "js_div (Finite a) (Finite b) =
     (if b = 0 then (if a = 0 then NaN else if 0 < a then Infinity else NegInfinity)
      else to_double (a / b))"
| "js_div (Finite a) Infinity = Finite 0"
| "js_div (Finite a) NegInfinity = Finite 0"
| "js_div Infinity (Finite b) = (if 0 \<le> b then Infinity else NegInfinity)"
| "js_div NegInfinity (Finite b) = (if 0 \<le> b then NegInfinity else Infinity)"
| "js_div Infinity Infinity = NaN"
| "js_div Infinity NegInfinity = NaN"
| "js_div NegInfinity Infinity = NaN"
| "js_div NegInfinity NegInfinity = NaN"

text \<open>
  \<^verbatim>\<open>v | 0\<close> is ToInt32: non-finite values give 0, a finite value is truncated towards
  zero and wrapped into the signed 32-bit range.
\<close>

definition trunc :: "rat \<Rightarrow> int" where
  "trunc q = (if q < 0 then - \<lfloor>- q\<rfloor> else \<lfloor>q\<rfloor>)"

fun toInt32 :: "number \<Rightarrow> int" where
  "toInt32 (Finite q) =
     (let m = trunc q mod 2 ^ 32 in if 2 ^ 31 \<le> m then m - 2 ^ 32 else m)"
| "toInt32 Infinity = 0"
| "toInt32 NegInfinity = 0"
| "toInt32 NaN = 0"

subsection \<open>The grid object\<close>

record world =
  width :: int
  height :: int

record range =
  start_r :: int
  end_r :: int

record drag =
  range_d :: "range option"
  duty_d :: jsval

record grid =
  callBacks :: nat
  times_g :: jsarray
  readOnly :: bool
  world :: world
  mouseDown :: bool
  drag :: drag
  observers :: "string list"

text \<open>
  A mouse event as the handlers read it: the client coordinates, and what
  \<^verbatim>\<open>getOffset(this.container)\<close> and \<^verbatim>\<open>getScrollOffset(this.gridCanvas)\<close> return
  when it is handled (both walk the document, which is outside the model).
\<close>

record mouse_event =
  clientX :: int
  clientY :: int
  offset :: "int \<times> int"
  scroll :: "int \<times> int"

record mouse_time =
  min_m :: int
  duty_m :: int

datatype error = TypeError

type_synonym outcome = "(error \<times> grid) + grid"

subsection \<open>constructTimesArray, toString, getHourTotals\<close>

function timeArr_push :: "nat \<Rightarrow> jsval list \<Rightarrow> jsval list" where
  "timeArr_push i timeArr =
     (if i < 96 then timeArr_push (i + 1) (timeArr @ [Num 1]) else timeArr)"
  by pat_completeness auto
termination
  by (relation "measure (\<lambda>(i, timeArr). 96 - i)") auto

declare timeArr_push.simps [simp del]

text \<open>
  The argument is \<open>None\<close> when no string is passed. \<^verbatim>\<open>str || ''\<close> turns an absent and
  an empty string alike into the empty string, which is falsy in the test that follows.
  \<^verbatim>\<open>split('')\<close> gives one one-character string for each character.
\<close>

definition constructTimesArray :: "string option \<Rightarrow> jsarray" where
  "constructTimesArray str =
     (let gridStr = (case str of None \<Rightarrow> [] | Some s \<Rightarrow> s) in
      if gridStr \<noteq> [] \<and> length gridStr = 96
      then \<lparr>elems = map (\<lambda>c. Str [c]) gridStr, props = []\<rparr>
      else \<lparr>elems = timeArr_push 0 [], props = []\<rparr>)"

definition toString :: "grid \<Rightarrow> string" where
  "toString g = join (times_g g)"

text \<open>
  \<^verbatim>\<open>str.match(new RegExp(duty, 'g'))\<close>: \<^verbatim>\<open>duty\<close> runs over 1 to 4, so the
  pattern is one digit, and the result is the list of its occurrences in \<open>str\<close>, or
  \<open>None\<close> (\<^verbatim>\<open>null\<close>) when there is none.
\<close>

definition match_g :: "string \<Rightarrow> char \<Rightarrow> string list option" where
  "match_g str c =
     (let finds = map (\<lambda>x. [x]) (filter (\<lambda>x. x = c) str) in
      if finds = [] then None else Some finds)"

definition types :: "string list" where
  "types = [''off'', ''sleeper'', ''drive'', ''onduty'']"

definition total :: "string \<Rightarrow> nat \<Rightarrow> rat" where
  "total str i =
     (let duty = i + 1 in
      case match_g str (digit_char duty) of
        None \<Rightarrow> 0
      | Some finds \<Rightarrow> of_nat (length finds) / 4)"

text \<open>The result is \<open>None\<close> where the source returns \<^verbatim>\<open>false\<close>.\<close>

definition getHourTotals :: "grid \<Rightarrow> (string \<times> rat) list option" where
  "getHourTotals g =
     (if length (elems (times_g g)) = 0 then None
      else let str = toString g in
        Some (map (\<lambda>i. (types ! i, total str i)) [0..<length types]))"

subsection \<open>Mouse handling\<close>

text \<open>
  The pointer position relative to the container, \<^verbatim>\<open>mx\<close> and \<^verbatim>\<open>my\<close> of
  \<^verbatim>\<open>getMouseTime\<close>, as functions of the event.
\<close>

definition mx :: "mouse_event \<Rightarrow> int" where
  "mx e = clientX e - (fst (offset e) - fst (scroll e))"

definition my :: "mouse_event \<Rightarrow> int" where
  "my e = clientY e - (snd (offset e) + 1) + snd (scroll e)"

definition getMouseTime :: "grid \<Rightarrow> mouse_event \<Rightarrow> mouse_time" where
  "getMouseTime g e =
     (let timeIncrmnt = js_div (Finite (of_int (width (world g)))) (Finite 96);
          dutyIncrmnt = js_div (Finite (of_int (height (world g)))) (Finite 4);
          x = toInt32 (js_div (Finite (of_int (mx e))) timeIncrmnt);
          y = toInt32 (js_div (Finite (of_int (my e))) dutyIncrmnt) + 1
      in \<lparr>min_m = x, duty_m = y\<rparr>)"

text \<open>
  A new range object has only its \<^verbatim>\<open>start\<close>; its \<^verbatim>\<open>end\<close> is assigned by the next
  statement, so the value given to \<open>end_r\<close> in the first branch is never read.
\<close>

definition updateDrag :: "grid \<Rightarrow> mouse_time \<Rightarrow> grid" where
  "updateDrag g m =
     (let r = (case range_d (drag g) of
                 None \<Rightarrow> \<lparr>start_r = min_m m, end_r = min_m m\<rparr>
               | Some r \<Rightarrow> r)
      in g\<lparr>drag := \<lparr>range_d = Some (r\<lparr>end_r := min_m m\<rparr>), duty_d = Num (duty_m m)\<rparr>\<rparr>)"

function saveLoop :: "int \<Rightarrow> int \<Rightarrow> jsval \<Rightarrow> jsarray \<Rightarrow> jsarray" where
  "saveLoop i e d t = (if i < e then saveLoop (i + 1) e d (array_set t i d) else t)"
  by pat_completeness auto
termination
  by (relation "measure (\<lambda>(i, e, d, t). nat (e - i))") auto

declare saveLoop.simps [simp del]

text \<open>
  \<^verbatim>\<open>r\<close> is \<^verbatim>\<open>undefined\<close> when the drag object has no range, and reading
  \<^verbatim>\<open>r.start\<close> then throws.
\<close>

definition saveDrag :: "grid \<Rightarrow> outcome" where
  "saveDrag g =
     (case range_d (drag g) of
        None \<Rightarrow> Inl (TypeError, g)
      | Some r \<Rightarrow>
          Inr (g\<lparr>times_g := saveLoop (start_r r) (end_r r) (duty_d (drag g)) (times_g g),
                 drag := \<lparr>range_d = None, duty_d = Undefined\<rparr>\<rparr>))"

definition mousedownHandler :: "grid \<Rightarrow> mouse_event \<Rightarrow> outcome" where
  "mousedownHandler g e =
     (let g1 = g\<lparr>mouseDown := True\<rparr> in Inr (updateDrag g1 (getMouseTime g1 e)))"

definition mouseupHandler :: "grid \<Rightarrow> outcome" where
  "mouseupHandler g =
     (case saveDrag (g\<lparr>mouseDown := False\<rparr>) of
        Inl thrown \<Rightarrow> Inl thrown
      | Inr g2 \<Rightarrow>
          Inr (if \<not> readOnly g2 then g2\<lparr>callBacks := callBacks g2 + 1\<rparr> else g2))"

definition mousemoveHandler :: "grid \<Rightarrow> mouse_event \<Rightarrow> outcome" where
  "mousemoveHandler g e =
     (if \<not> mouseDown g then Inr g else Inr (updateDrag g (getMouseTime g e)))"

definition mouseoutHandler :: "grid \<Rightarrow> outcome" where
  "mouseoutHandler g =
     (case range_d (drag g) of
        None \<Rightarrow> Inr g
      | Some r \<Rightarrow>
          if 93 < end_r r
          then mouseupHandler (g\<lparr>drag := (drag g)\<lparr>range_d := Some (r\<lparr>end_r := 96\<rparr>)\<rparr>\<rparr>)
          else Inr g)"

subsection \<open>Construction and event delivery\<close>

record params =
  gridStr :: "string option"
  readOnly_p :: bool

text \<open>
  \<^verbatim>\<open>constructCanvas\<close> registers the four listeners and fires the callback, both only
  when the grid is not read-only.
\<close>

definition constructCanvas :: "grid \<Rightarrow> grid" where
  "constructCanvas g =
     (let g1 = (if \<not> readOnly g
                then g\<lparr>observers := [''mousemove'', ''mousedown'', ''mouseup'', ''mouseout'']\<rparr>
                else g)
      in if \<not> readOnly g1 then g1\<lparr>callBacks := callBacks g1 + 1\<rparr> else g1)"

text \<open>The constructor; \<open>w\<close> is the client size of the container element.\<close>

definition Grid :: "world \<Rightarrow> params \<Rightarrow> grid" where
  "Grid w p =
     constructCanvas
       \<lparr>callBacks = 0,
        times_g = constructTimesArray (gridStr p),
        readOnly = readOnly_p p,
        world = w,
        mouseDown = False,
        drag = \<lparr>range_d = None, duty_d = Undefined\<rparr>,
        observers = []\<rparr>"

datatype event =
  Mousemove mouse_event | Mousedown mouse_event | Mouseup mouse_event | Mouseout mouse_event

fun event_type :: "event \<Rightarrow> string" where
  "event_type (Mousemove e) = ''mousemove''"
| "event_type (Mousedown e) = ''mousedown''"
| "event_type (Mouseup e) = ''mouseup''"
| "event_type (Mouseout e) = ''mouseout''"

text \<open>The listener of an event calls the handler named after it.\<close>

fun handler :: "grid \<Rightarrow> event \<Rightarrow> outcome" where
  "handler g (Mousemove e) = mousemoveHandler g e"
| "handler g (Mousedown e) = mousedownHandler g e"
| "handler g (Mouseup e) = mouseupHandler g"
| "handler g (Mouseout e) = mouseoutHandler g"

definition dispatch :: "grid \<Rightarrow> event \<Rightarrow> outcome" where
  "dispatch g ev = (if event_type ev \<in> set (observers g) then handler g ev else Inr g)"

text \<open>
  A sequence of events. An error thrown by a listener is reported by the host and the
  next event is delivered to the grid as the throw left it; the errors are collected.
\<close>

fun run :: "grid \<Rightarrow> event list \<Rightarrow> error list \<times> grid" where
  "run g [] = ([], g)"
| "run g (ev # evs) =
     (case dispatch g ev of
        Inr g' \<Rightarrow> run g' evs
      | Inl (err, g') \<Rightarrow> (case run g' evs of (errs, g'') \<Rightarrow> (err # errs, g'')))"

subsection \<open>Notions used to state the properties\<close>

text \<open>
  The duty number held by a slot. The source stores it as a number (the default array
  and every committed drag) or as a one-character string (an array split from a grid
  string), and reads both alike: \<^verbatim>\<open>join\<close> prints them the same and the drawing code
  multiplies by them. A slot is valid when it holds one of the duty numbers 1 to 4
  (off duty, sleeper berth, driving, on duty).
\<close>

fun duty_of :: "jsval \<Rightarrow> nat option" where
  "duty_of (Num n) = (if 1 \<le> n \<and> n \<le> 4 then Some (nat n) else None)"
| "duty_of (Str s) =
     (if s = ''1'' then Some 1 else if s = ''2'' then Some 2
      else if s = ''3'' then Some 3 else if s = ''4'' then Some 4 else None)"
| "duty_of Undefined = None"

text \<open>A slot as \<^verbatim>\<open>split('')\<close> produces it: a string of one character.\<close>

fun is_char :: "jsval \<Rightarrow> bool" where
  "is_char (Str [c]) = True"
| "is_char v = False"

definition count_digit :: "nat \<Rightarrow> string \<Rightarrow> nat" where
  "count_digit k str = length (filter (\<lambda>x. x = digit_char k) str)"



text \<open>A grid on which the four listeners are registered.\<close>

definition editable :: "grid \<Rightarrow> bool" where
  "editable g = (\<not> readOnly g \<and>
                 observers g = [''mousemove'', ''mousedown'', ''mouseup'', ''mouseout''])"

text \<open>
  The events that commit an edit in a state: these are the conditions under which the
  handler runs \<^verbatim>\<open>saveDrag\<close> to its end.
\<close>

fun commits :: "grid \<Rightarrow> event \<Rightarrow> bool" where
  "commits g (Mouseup e) = (range_d (drag g) \<noteq> None)"
| "commits g (Mouseout e) =
     (case range_d (drag g) of None \<Rightarrow> False | Some r \<Rightarrow> 93 < end_r r)"
| "commits g (Mousedown e) = False"
| "commits g (Mousemove e) = False"

definition step :: "grid \<Rightarrow> event \<Rightarrow> grid" where
  "step g ev = snd (run g [ev])"

fun commit_count :: "grid \<Rightarrow> event list \<Rightarrow> nat" where
  "commit_count g [] = 0"
| "commit_count g (ev # evs) =
     (if commits g ev then 1 else 0) + commit_count (step g ev) evs"

subsection \<open>Example inputs\<close>

definition example_world :: world where
  "example_world = \<lparr>width = 960, height = 80\<rparr>"

definition example_grid :: grid where
  "example_grid = Grid example_world \<lparr>gridStr = None, readOnly_p = False\<rparr>"


definition pointer :: "int \<Rightarrow> int \<Rightarrow> mouse_event" where
  "pointer x y = \<lparr>clientX = x, clientY = y, offset = (0, 0), scroll = (0, 0)\<rparr>"

definition example_str :: string where
  "example_str = ''111111111111111111111111222222222222222222222222333333333333333333333333444444444444444444444444''"

definition example_decoded :: grid where
  "example_decoded = Grid example_world \<lparr>gridStr = Some example_str, readOnly_p = False\<rparr>"

definition example_readOnly :: grid where
  "example_readOnly = Grid example_world \<lparr>gridStr = Some example_str, readOnly_p = True\<rparr>"

text \<open>A drag in progress from slot 10 to slot 20 in the driving band, and one leftwards.\<close>

definition dragging :: grid where
  "dragging = snd (run example_grid [Mousedown (pointer 100 50), Mousemove (pointer 200 50)])"

definition dragging_back :: grid where
  "dragging_back =
     snd (run example_grid [Mousedown (pointer 200 50), Mousemove (pointer 100 50)])"


section \<open>Auxiliary facts\<close>

lemma timeArr_push_eq: "timeArr_push i xs = xs @ replicate (96 - i) (Num 1)"
proof (induction i xs rule: timeArr_push.induct)
  case (1 i timeArr)
  show ?case
  proof (cases "i < 96")
    case True
    then have "96 - i = Suc (96 - (i + 1))" by simp
    with True 1 show ?thesis
      by (subst timeArr_push.simps) (simp add: replicate_app_Cons_same)
  next
    case False
    then show ?thesis by (subst timeArr_push.simps) simp
  qed
qed

lemma digit_char_simps:
  "digit_char 1 = CHR ''1''" "digit_char 2 = CHR ''2''"
  "digit_char 3 = CHR ''3''" "digit_char 4 = CHR ''4''"
  "digit_char (Suc 0) = CHR ''1''"
  by (simp_all add: digit_char_def numeral_2_eq_2 numeral_3_eq_3 eval_nat_numeral)

lemma numberToString_digit: "0 \<le> n \<Longrightarrow> n < 10 \<Longrightarrow> numberToString n = [digit_char (nat n)]"
  by (simp add: numberToString_def digits.simps)

lemma duty_of_range: "duty_of v = Some k \<Longrightarrow> 1 \<le> k \<and> k \<le> 4"
  by (cases v) (auto split: if_splits)

lemma join_item_duty: "duty_of v = Some k \<Longrightarrow> join_item v = [digit_char k]"
  by (cases v) (auto split: if_splits simp: numberToString_digit digit_char_simps)

lemma digit_char_inj: "1 \<le> j \<Longrightarrow> j \<le> 4 \<Longrightarrow> 1 \<le> k \<Longrightarrow> k \<le> 4 \<Longrightarrow> digit_char j = digit_char k \<Longrightarrow> j = k"
proof -
  assume a: "1 \<le> j" "j \<le> 4" "1 \<le> k" "k \<le> 4" "digit_char j = digit_char k"
  from a(1,2) have j: "j = 1 \<or> j = 2 \<or> j = 3 \<or> j = 4" by arith
  from a(3,4) have k: "k = 1 \<or> k = 2 \<or> k = 3 \<or> k = 4" by arith
  from j k a(5) show ?thesis by (auto simp: digit_char_simps)
qed

lemma total_count: "total str i = of_nat (length (filter (\<lambda>x. x = digit_char (i + 1)) str)) / 4"
  by (simp add: total_def match_g_def Let_def)

lemma getHourTotals_Some:
  "elems (times_g g) \<noteq> [] \<Longrightarrow>
   getHourTotals g = Some [(''off'', total (toString g) 0), (''sleeper'', total (toString g) 1),
     (''drive'', total (toString g) 2), (''onduty'', total (toString g) 3)]"
  by (simp add: getHourTotals_def types_def Let_def upt_rec numeral_2_eq_2 numeral_3_eq_3)

lemma array_set_length:
  "i < int (length (elems t)) \<Longrightarrow> length (elems (array_set t i d)) = length (elems t)"
  by (auto simp: array_set_def)

lemma array_set_nth:
  "i < int (length (elems t)) \<Longrightarrow> j < length (elems t) \<Longrightarrow>
   elems (array_set t i d) ! j = (if int j = i then d else elems t ! j)"
  by (auto simp: array_set_def nth_list_update)

lemma saveLoop_elems:
  "e \<le> int (length (elems t)) \<Longrightarrow>
   length (elems (saveLoop i e d t)) = length (elems t) \<and>
   (\<forall>j < length (elems t).
      elems (saveLoop i e d t) ! j = (if i \<le> int j \<and> int j < e then d else elems t ! j))"
proof (induction i e d t rule: saveLoop.induct)
  case (1 i e d t)
  show ?case
  proof (cases "i < e")
    case True
    with 1(2) have lt: "i < int (length (elems t))" by simp
    have len: "length (elems (array_set t i d)) = length (elems t)"
      using lt by (rule array_set_length)
    from 1(1) [OF True] 1(2) len
    have ih: "length (elems (saveLoop (i + 1) e d (array_set t i d))) = length (elems t)"
      "\<forall>j < length (elems t). elems (saveLoop (i + 1) e d (array_set t i d)) ! j =
          (if i + 1 \<le> int j \<and> int j < e then d else elems (array_set t i d) ! j)"
      by simp_all
    have unf: "saveLoop i e d t = saveLoop (i + 1) e d (array_set t i d)"
      using True by (subst saveLoop.simps) simp
    show ?thesis
      unfolding unf using ih True by (auto simp: array_set_nth [OF lt])
  next
    case False
    then have "saveLoop i e d t = t" by (subst saveLoop.simps) simp
    with False show ?thesis by auto
  qed
qed

lemma saveLoop_noop: "e \<le> i \<Longrightarrow> saveLoop i e d t = t"
  by (subst saveLoop.simps) simp

lemma saveLoop_list:
  assumes "0 \<le> a" "a \<le> b" "b \<le> int (length (elems t))"
  shows "elems (saveLoop a b d t) =
         take (nat a) (elems t) @ replicate (nat (b - a)) d @ drop (nat b) (elems t)"
proof (rule nth_equalityI)
  show "length (elems (saveLoop a b d t)) =
        length (take (nat a) (elems t) @ replicate (nat (b - a)) d @ drop (nat b) (elems t))"
    using assms saveLoop_elems [of b t a d] by auto
next
  fix j assume "j < length (elems (saveLoop a b d t))"
  then have j: "j < length (elems t)" using assms saveLoop_elems [of b t a d] by simp
  then have "elems (saveLoop a b d t) ! j = (if a \<le> int j \<and> int j < b then d else elems t ! j)"
    using assms saveLoop_elems [of b t a d] by simp
  moreover have "(take (nat a) (elems t) @ replicate (nat (b - a)) d @ drop (nat b) (elems t)) ! j
      = (if a \<le> int j \<and> int j < b then d else elems t ! j)"
    using assms j by (auto simp: nth_append min_def nat_diff_distrib not_less nat_le_iff) 
  ultimately show "elems (saveLoop a b d t) ! j =
     (take (nat a) (elems t) @ replicate (nat (b - a)) d @ drop (nat b) (elems t)) ! j"
    by simp
qed

lemma count_digit_append: "count_digit k (s @ t) = count_digit k s + count_digit k t"
  by (simp add: count_digit_def)

lemma count_digit_Cons: "count_digit k (c # s) = count_digit k [c] + count_digit k s"
  by (simp add: count_digit_def)

lemma count_digit_single:
  "1 \<le> j \<Longrightarrow> j \<le> 4 \<Longrightarrow> 1 \<le> k \<Longrightarrow> k \<le> 4 \<Longrightarrow>
   count_digit k [digit_char j] = (if j = k then 1 else 0)"
  using digit_char_inj [of j k] by (auto simp: count_digit_def)

lemma count_digit_replicate:
  "1 \<le> j \<Longrightarrow> j \<le> 4 \<Longrightarrow> 1 \<le> k \<Longrightarrow> k \<le> 4 \<Longrightarrow>
   count_digit k (replicate n (digit_char j)) = (if j = k then n else 0)"
  using digit_char_inj [of j k] by (auto simp: count_digit_def filter_replicate)

lemma total_count_digit: "total str i = of_nat (count_digit (i + 1) str) / 4"
  by (simp add: total_count count_digit_def)

lemma count_digit_valid_sum:
  "\<forall>v\<in>set xs. duty_of v \<noteq> None \<Longrightarrow>
   count_digit 1 (concat (map join_item xs)) + count_digit 2 (concat (map join_item xs)) +
   count_digit 3 (concat (map join_item xs)) + count_digit 4 (concat (map join_item xs)) = length xs"
proof (induction xs)
  case Nil
  show ?case by (simp add: count_digit_def)
next
  case (Cons v xs)
  then obtain k where k: "duty_of v = Some k" by auto
  then have r: "1 \<le> k" "k \<le> 4" using duty_of_range by auto
  have s: "count_digit 1 [digit_char k] + count_digit 2 [digit_char k] +
           count_digit 3 [digit_char k] + count_digit 4 [digit_char k] = 1"
    using r by (simp add: count_digit_single)
  from Cons have ih: "count_digit 1 (concat (map join_item xs)) + count_digit 2 (concat (map join_item xs)) +
   count_digit 3 (concat (map join_item xs)) + count_digit 4 (concat (map join_item xs)) = length xs"
    by simp
  show ?case
    using s ih
    by (simp add: join_item_duty [OF k] count_digit_Cons [of _ _ "concat (map join_item xs)"])
qed

lemma join_valid:
  "\<forall>v\<in>set xs. duty_of v \<noteq> None \<Longrightarrow>
   concat (map join_item xs) = map (\<lambda>v. digit_char (the (duty_of v))) xs"
proof (induction xs)
  case Nil
  show ?case by simp
next
  case (Cons v xs)
  then obtain k where k: "duty_of v = Some k" by auto
  with Cons show ?case by (simp add: join_item_duty [OF k])
qed

lemma duty_of_Str_digit: "duty_of v = Some k \<Longrightarrow> duty_of (Str [digit_char k]) = Some k"
proof -
  assume "duty_of v = Some k"
  then have "1 \<le> k \<and> k \<le> 4" by (rule duty_of_range)
  then have "k = 1 \<or> k = 2 \<or> k = 3 \<or> k = 4" by arith
  then show ?thesis by (auto simp: digit_char_simps)
qed

lemma times_g_Grid: "times_g (Grid w p) = constructTimesArray (gridStr p)"
  by (simp add: Grid_def constructCanvas_def Let_def)

lemma constructTimesArray_96:
  "length s = 96 \<Longrightarrow> constructTimesArray (Some s) = \<lparr>elems = map (\<lambda>c. Str [c]) s, props = []\<rparr>"
  by (auto simp: constructTimesArray_def)

lemma constructTimesArray_else:
  "length s \<noteq> 96 \<Longrightarrow> constructTimesArray (Some s) = \<lparr>elems = replicate 96 (Num 1), props = []\<rparr>"
  "constructTimesArray None = \<lparr>elems = replicate 96 (Num 1), props = []\<rparr>"
  by (simp_all add: constructTimesArray_def timeArr_push_eq)

lemma join_uniform:
  "\<forall>v\<in>set ys. duty_of v = Some p \<Longrightarrow>
   concat (map join_item ys) = replicate (length ys) (digit_char p)"
  by (induction ys) (simp_all add: join_item_duty)

lemma take_mid_drop: "take m xs @ take n (drop m xs) @ drop (m + n) xs = xs"
proof -
  have "take n (drop m xs) @ drop n (drop m xs) = drop m xs"
    by (rule append_take_drop_id)
  moreover have "drop n (drop m xs) = drop (m + n) xs"
    by (simp add: add.commute)
  ultimately have "take n (drop m xs) @ drop (m + n) xs = drop m xs"
    by simp
  then have "take m xs @ take n (drop m xs) @ drop (m + n) xs = take m xs @ drop m xs"
    by simp
  then show ?thesis by (simp only: append_take_drop_id)
qed

lemma saveDrag_Some:
  "range_d (drag g) = Some r \<Longrightarrow>
   saveDrag g = Inr (g\<lparr>times_g := saveLoop (start_r r) (end_r r) (duty_d (drag g)) (times_g g),
                        drag := \<lparr>range_d = None, duty_d = Undefined\<rparr>\<rparr>)"
  by (simp add: saveDrag_def)








lemma dispatch_editable: "editable g \<Longrightarrow> dispatch g ev = handler g ev"
  by (cases ev) (simp_all add: dispatch_def editable_def)

lemma updateDrag_facts:
  "callBacks (updateDrag g m) = callBacks g"
  "times_g (updateDrag g m) = times_g g"
  "readOnly (updateDrag g m) = readOnly g"
  "observers (updateDrag g m) = observers g"
  "mouseDown (updateDrag g m) = mouseDown g"
  "range_d (drag (updateDrag g m)) \<noteq> None"
  by (simp_all add: updateDrag_def Let_def)

lemma step_Mousedown:
  "editable g \<Longrightarrow> run g [Mousedown e] = ([], step g (Mousedown e)) \<and>
     callBacks (step g (Mousedown e)) = callBacks g \<and>
     times_g (step g (Mousedown e)) = times_g g \<and>
     editable (step g (Mousedown e)) \<and>
     mouseDown (step g (Mousedown e)) \<and>
     range_d (drag (step g (Mousedown e))) \<noteq> None"
  by (simp add: step_def dispatch_editable mousedownHandler_def Let_def updateDrag_facts editable_def)

lemma step_Mousemove:
  "editable g \<Longrightarrow> run g [Mousemove e] = ([], step g (Mousemove e)) \<and>
     callBacks (step g (Mousemove e)) = callBacks g \<and>
     times_g (step g (Mousemove e)) = times_g g \<and>
     editable (step g (Mousemove e)) \<and>
     mouseDown (step g (Mousemove e)) = mouseDown g \<and>
     (mouseDown g \<longrightarrow> range_d (drag (step g (Mousemove e))) \<noteq> None)"
  by (simp add: step_def dispatch_editable mousemoveHandler_def Let_def updateDrag_facts editable_def)

lemma mouseupHandler_range:
  "range_d (drag g) = Some r \<Longrightarrow> \<not> readOnly g \<Longrightarrow>
   mouseupHandler g =
     Inr (g\<lparr>callBacks := callBacks g + 1,
            times_g := saveLoop (start_r r) (end_r r) (duty_d (drag g)) (times_g g),
            mouseDown := False,
            drag := \<lparr>range_d = None, duty_d = Undefined\<rparr>\<rparr>)"
  by (simp add: mouseupHandler_def saveDrag_def)

lemma mouseupHandler_no_range:
  "range_d (drag g) = None \<Longrightarrow> mouseupHandler g = Inl (TypeError, g\<lparr>mouseDown := False\<rparr>)"
  by (simp add: mouseupHandler_def saveDrag_def)

lemma step_Mouseup:
  "editable g \<Longrightarrow>
     callBacks (step g (Mouseup e)) = callBacks g + (if commits g (Mouseup e) then 1 else 0) \<and>
     editable (step g (Mouseup e)) \<and>
     (commits g (Mouseup e) \<longrightarrow> run g [Mouseup e] = ([], step g (Mouseup e))) \<and>
     (\<not> commits g (Mouseup e) \<longrightarrow> times_g (step g (Mouseup e)) = times_g g)"
proof (cases "range_d (drag g)")
  case None
  assume "editable g"
  then show ?thesis
    using None by (simp add: step_def dispatch_editable mouseupHandler_no_range editable_def)
next
  case (Some r)
  assume "editable g"
  then show ?thesis
    using Some by (simp add: step_def dispatch_editable mouseupHandler_range editable_def)
qed

lemma step_Mouseout:
  "editable g \<Longrightarrow>
     callBacks (step g (Mouseout e)) = callBacks g + (if commits g (Mouseout e) then 1 else 0) \<and>
     editable (step g (Mouseout e)) \<and>
     run g [Mouseout e] = ([], step g (Mouseout e)) \<and>
     (\<not> commits g (Mouseout e) \<longrightarrow> times_g (step g (Mouseout e)) = times_g g)"
proof (cases "range_d (drag g)")
  case None
  assume "editable g"
  then show ?thesis
    using None by (simp add: step_def dispatch_editable mouseoutHandler_def)
next
  case (Some r)
  assume "editable g"
  then show ?thesis
    using Some
    by (simp add: step_def dispatch_editable mouseoutHandler_def mouseupHandler_range editable_def)
qed

lemma step_callBacks:
  "editable g \<Longrightarrow>
   callBacks (step g ev) = callBacks g + (if commits g ev then 1 else 0) \<and> editable (step g ev) \<and>
   (\<not> commits g ev \<longrightarrow> times_g (step g ev) = times_g g)"
  using step_Mousedown step_Mousemove step_Mouseup step_Mouseout
  by (cases ev) simp_all

lemma run_Cons_step: "snd (run g (ev # evs)) = snd (run (step g ev) evs)"
  by (simp add: step_def split: sum.splits prod.splits)

lemma run_callBacks:
  "editable g \<Longrightarrow> callBacks (snd (run g evs)) = callBacks g + commit_count g evs"
proof (induction evs arbitrary: g)
  case Nil
  show ?case by simp
next
  case (Cons ev evs)
  from step_callBacks [OF Cons.prems, of ev]
  have s: "callBacks (step g ev) = callBacks g + (if commits g ev then 1 else 0)"
    and e: "editable (step g ev)" by simp_all
  show ?case
    using Cons.IH [OF e] s by (simp add: run_Cons_step del: run.simps)
qed

lemma run_moves:
  "editable g \<Longrightarrow> mouseDown g \<Longrightarrow> range_d (drag g) \<noteq> None \<Longrightarrow>
   \<exists>g'. run g (map Mousemove ms) = ([], g') \<and> callBacks g' = callBacks g \<and>
        times_g g' = times_g g \<and> editable g' \<and> mouseDown g' \<and> range_d (drag g') \<noteq> None"
proof (induction ms arbitrary: g)
  case Nil
  then show ?case by simp
next
  case (Cons m ms)
  let ?g1 = "step g (Mousemove m)"
  from step_Mousemove [OF Cons.prems(1), of m] Cons.prems(2)
  have s: "run g [Mousemove m] = ([], ?g1)" "callBacks ?g1 = callBacks g"
    "times_g ?g1 = times_g g" "editable ?g1" "mouseDown ?g1" "range_d (drag ?g1) \<noteq> None"
    by simp_all
  from s(1) have d: "dispatch g (Mousemove m) = Inr ?g1"
    by (simp split: sum.splits prod.splits)
  from Cons.IH [OF s(4,5,6)] obtain g' where
    "run ?g1 (map Mousemove ms) = ([], g')" "callBacks g' = callBacks ?g1"
    "times_g g' = times_g ?g1" "editable g'" "mouseDown g'" "range_d (drag g') \<noteq> None"
    by blast
  then show ?case using d s(2,3) by simp
qed

lemma run_down_moves:
  "editable g \<Longrightarrow>
   \<exists>g'. run g (Mousedown d # map Mousemove ms) = ([], g') \<and> callBacks g' = callBacks g \<and>
        times_g g' = times_g g \<and> editable g' \<and> range_d (drag g') \<noteq> None"
proof -
  assume ed: "editable g"
  let ?g1 = "step g (Mousedown d)"
  from step_Mousedown [OF ed, of d]
  have s: "run g [Mousedown d] = ([], ?g1)" "callBacks ?g1 = callBacks g"
    "times_g ?g1 = times_g g" "editable ?g1" "mouseDown ?g1" "range_d (drag ?g1) \<noteq> None"
    by simp_all
  from s(1) have dd: "dispatch g (Mousedown d) = Inr ?g1"
    by (simp split: sum.splits prod.splits)
  from run_moves [OF s(4,5,6), of ms] obtain g' where
    "run ?g1 (map Mousemove ms) = ([], g')" "callBacks g' = callBacks ?g1"
    "times_g g' = times_g ?g1" "editable g'" "range_d (drag g') \<noteq> None"
    by blast
  then show ?thesis using dd s(2,3) by simp
qed

lemma run_append:
  "run g (xs @ ys) = (fst (run g xs) @ fst (run (snd (run g xs)) ys), snd (run (snd (run g xs)) ys))"
  by (induction xs arbitrary: g) (auto split: sum.splits prod.splits)

lemma Grid_editable: "editable (Grid w \<lparr>gridStr = s, readOnly_p = False\<rparr>)"
  by (simp add: Grid_def constructCanvas_def editable_def)

lemma Grid_callBacks: "callBacks (Grid w p) = (if readOnly_p p then 0 else 1)"
  by (simp add: Grid_def constructCanvas_def)

lemma split_join_chars:
  "\<forall>v\<in>set xs. is_char v \<Longrightarrow> map (\<lambda>c. Str [c]) (concat (map join_item xs)) = xs"
proof (induction xs)
  case Nil
  show ?case by simp
next
  case (Cons v xs)
  then have "is_char v" by simp
  then obtain c where "v = Str [c]" by (cases v rule: is_char.cases) simp_all
  with Cons show ?case by simp
qed

lemma length_join_chars:
  "\<forall>v\<in>set xs. is_char v \<Longrightarrow> length (concat (map join_item xs)) = length xs"
proof -
  assume "\<forall>v\<in>set xs. is_char v"
  then have "length (map (\<lambda>c. Str [c]) (concat (map join_item xs))) = length xs"
    by (simp only: split_join_chars)
  then show ?thesis by simp
qed

section \<open>Properties of the grid\<close>

subsection \<open>Committing a drag\<close>

text \<open>
  C1, as the code has it: \<^verbatim>\<open>saveDrag\<close> clamps neither the range nor the duty. For a
  committed drag whose range \<open>[start, end)\<close> has \<open>end \<le> 96\<close> and whose duty \<open>d\<close> is one
  of 1 to 4, on an array of 96 valid slots: the commit returns normally, exactly the slots
  \<open>i\<close> of \<open>[0, 96)\<close> with \<open>start \<le> i < end\<close> are set to \<open>d\<close> (a negative index writes no
  slot), every other slot is unchanged, and the array still has length 96 with every
  element a valid duty number.
\<close>

theorem saveDrag_sets_range:
  assumes "range_d (drag g) = Some r" and "duty_d (drag g) = Num d"
    and "1 \<le> d" and "d \<le> 4" and "end_r r \<le> 96"
    and "length (elems (times_g g)) = 96"
    and "\<forall>v\<in>set (elems (times_g g)). duty_of v \<noteq> None"
  shows "\<exists>g'. saveDrag g = Inr g' \<and>
           length (elems (times_g g')) = 96 \<and>
           (\<forall>i<96. elems (times_g g') ! i =
               (if start_r r \<le> int i \<and> int i < end_r r then Num d else elems (times_g g) ! i)) \<and>
           (\<forall>v\<in>set (elems (times_g g')). duty_of v \<noteq> None)"
proof -
  let ?t = "saveLoop (start_r r) (end_r r) (Num d) (times_g g)"
  have e: "end_r r \<le> int (length (elems (times_g g)))" using assms(5,6) by simp
  have len: "length (elems ?t) = 96"
    using saveLoop_elems [OF e, of "start_r r" "Num d"] assms(6) by simp
  have nth: "\<forall>i<96. elems ?t ! i =
      (if start_r r \<le> int i \<and> int i < end_r r then Num d else elems (times_g g) ! i)"
    using saveLoop_elems [OF e, of "start_r r" "Num d"] assms(6) by simp
  have valid: "\<forall>v\<in>set (elems ?t). duty_of v \<noteq> None"
  proof
    fix v assume "v \<in> set (elems ?t)"
    then obtain i where i: "i < 96" "v = elems ?t ! i"
      using len by (auto simp: in_set_conv_nth)
    show "duty_of v \<noteq> None"
    proof (cases "start_r r \<le> int i \<and> int i < end_r r")
      case True
      with nth i have "v = Num d" by simp
      then show ?thesis using assms(3,4) by simp
    next
      case False
      with nth i have "v = elems (times_g g) ! i" by simp
      then have "v \<in> set (elems (times_g g))" using i(1) assms(6) by simp
      then show ?thesis using assms(7) by blast
    qed
  qed
  show ?thesis
    using len nth valid by (simp add: saveDrag_Some [OF assms(1)] assms(2))
qed

theorem saveDrag_sets_range_witness:
  "\<exists>g'. saveDrag dragging = Inr g' \<and>
        length (elems (times_g g')) = 96 \<and>
        (\<forall>i<96. elems (times_g g') ! i =
            (if start_r \<lparr>start_r = 10, end_r = 20\<rparr> \<le> int i \<and>
                int i < end_r \<lparr>start_r = 10, end_r = 20\<rparr>
             then Num 3 else elems (times_g dragging) ! i)) \<and>
        (\<forall>v\<in>set (elems (times_g g')). duty_of v \<noteq> None)"
proof -
  have h1: "range_d (drag dragging) = Some \<lparr>start_r = 10, end_r = 20\<rparr>" by code_simp
  have h2: "duty_d (drag dragging) = Num 3" by code_simp
  have h3: "(1::int) \<le> 3" "(3::int) \<le> 4" by simp_all
  have h4: "end_r \<lparr>start_r = 10, end_r = 20\<rparr> \<le> 96" by simp
  have h5: "length (elems (times_g dragging)) = 96" by code_simp
  have h6: "\<forall>v\<in>set (elems (times_g dragging)). duty_of v \<noteq> None" by code_simp
  show ?thesis
    by (rule saveDrag_sets_range [OF h1 h2 h3 h4 h5 h6])
qed

text \<open>
  A drag that ends to the right of slot 96 (the pointer is 25 pixels beyond a surface
  960 wide) lengthens the array: after the commit it has 98 elements.
\<close>

theorem saveDrag_grows_times:
  "length (elems (times_g (snd (run example_grid
      [Mousedown (pointer 950 50), Mousemove (pointer 985 50), Mouseup (pointer 985 50)])))) = 98"
  by code_simp

text \<open>
  C7: committing a drag range whose end is not greater than its start leaves the whole
  array unchanged; \<^verbatim>\<open>saveDrag\<close> only clears the drag state, and the mouse-up that
  commits it returns a grid with the same slots.
\<close>

theorem saveDrag_reverse_unchanged:
  assumes "range_d (drag g) = Some r" and "end_r r \<le> start_r r"
  shows "saveDrag g = Inr (g\<lparr>drag := \<lparr>range_d = None, duty_d = Undefined\<rparr>\<rparr>) \<and>
         (\<exists>g'. mouseupHandler g = Inr g' \<and> times_g g' = times_g g)"
  using assms by (simp add: mouseupHandler_def saveDrag_def saveLoop_noop)

theorem saveDrag_reverse_unchanged_witness:
  "saveDrag dragging_back = Inr (dragging_back\<lparr>drag := \<lparr>range_d = None, duty_d = Undefined\<rparr>\<rparr>) \<and>
   (\<exists>g'. mouseupHandler dragging_back = Inr g' \<and> times_g g' = times_g dragging_back)"
proof -
  have h1: "range_d (drag dragging_back) = Some \<lparr>start_r = 20, end_r = 10\<rparr>" by code_simp
  have h2: "end_r \<lparr>start_r = 20, end_r = 10\<rparr> \<le> start_r \<lparr>start_r = 20, end_r = 10\<rparr>" by simp
  show ?thesis
    by (rule saveDrag_reverse_unchanged [OF h1 h2])
qed

subsection \<open>The change notification\<close>

text \<open>
  C2, as the code has it: on a grid that is not read-only the callback is invoked once
  when the grid is constructed, and afterwards exactly once for each committed edit (at
  the mouse-up, or at the mouse-out that commits) and at no other time. For every event
  sequence the number of invocations grows by the number of commits; an event that does
  not commit leaves the slots unchanged; and for every gesture of mouse-down, any number
  of moves, then mouse-up, no handler throws, the callback has not fired before the
  mouse-up and has fired exactly once after it.
\<close>

theorem callBack_once_per_commit:
  assumes "editable g"
  shows "callBacks (Grid w \<lparr>gridStr = s, readOnly_p = False\<rparr>) = 1 \<and>
         editable (Grid w \<lparr>gridStr = s, readOnly_p = False\<rparr>) \<and>
         callBacks (snd (run g evs)) = callBacks g + commit_count g evs \<and>
         (\<not> commits g ev \<longrightarrow> times_g (step g ev) = times_g g) \<and>
         (\<exists>g1 g2. run g (Mousedown d # map Mousemove ms) = ([], g1) \<and>
                  callBacks g1 = callBacks g \<and>
                  run g (Mousedown d # map Mousemove ms @ [Mouseup u]) = ([], g2) \<and>
                  callBacks g2 = callBacks g + 1)"
proof -
  from run_down_moves [OF assms, of d ms] obtain g1 where
    g1: "run g (Mousedown d # map Mousemove ms) = ([], g1)" "callBacks g1 = callBacks g"
      "editable g1" "range_d (drag g1) \<noteq> None"
    by blast
  from step_Mouseup [OF g1(3), of u] g1(4)
  have up: "run g1 [Mouseup u] = ([], step g1 (Mouseup u))"
    "callBacks (step g1 (Mouseup u)) = callBacks g1 + 1"
    by simp_all
  have "run g ((Mousedown d # map Mousemove ms) @ [Mouseup u]) = ([], step g1 (Mouseup u))"
    unfolding run_append using g1(1) up(1) by simp
  then have "run g (Mousedown d # map Mousemove ms @ [Mouseup u]) = ([], step g1 (Mouseup u))"
    by simp
  with g1(1,2) up(2) have gest: "\<exists>g1 g2. run g (Mousedown d # map Mousemove ms) = ([], g1) \<and>
                  callBacks g1 = callBacks g \<and>
                  run g (Mousedown d # map Mousemove ms @ [Mouseup u]) = ([], g2) \<and>
                  callBacks g2 = callBacks g + 1"
    by simp
  show ?thesis
    using gest run_callBacks [OF assms, of evs] step_callBacks [OF assms, of ev]
      Grid_editable [of w s] Grid_callBacks [of w "\<lparr>gridStr = s, readOnly_p = False\<rparr>"]
    by simp
qed

theorem callBack_once_per_commit_witness:
  "callBacks (Grid example_world \<lparr>gridStr = None, readOnly_p = False\<rparr>) = 1 \<and>
   callBacks (snd (run example_grid
       [Mousedown (pointer 100 50), Mouseout (pointer 0 90), Mouseup (pointer 200 50),
        Mouseup (pointer 200 50)]))
     = callBacks example_grid + commit_count example_grid
       [Mousedown (pointer 100 50), Mouseout (pointer 0 90), Mouseup (pointer 200 50),
        Mouseup (pointer 200 50)] \<and>
   times_g (step example_grid (Mouseup (pointer 200 50))) = times_g example_grid \<and>
   (\<exists>g1 g2. run example_grid
               (Mousedown (pointer 100 50) # map Mousemove [pointer 150 50, pointer 200 50])
               = ([], g1) \<and>
            callBacks g1 = callBacks example_grid \<and>
            run example_grid
               (Mousedown (pointer 100 50) # map Mousemove [pointer 150 50, pointer 200 50]
                  @ [Mouseup (pointer 200 50)])
               = ([], g2) \<and>
            callBacks g2 = callBacks example_grid + 1)"
proof -
  have h: "editable example_grid" by code_simp
  have n: "\<not> commits example_grid (Mouseup (pointer 200 50))" by code_simp
  show ?thesis
    using callBack_once_per_commit [OF h, of example_world None
        "[Mousedown (pointer 100 50), Mouseout (pointer 0 90), Mouseup (pointer 200 50),
          Mouseup (pointer 200 50)]"
        "Mouseup (pointer 200 50)" "pointer 100 50" "[pointer 150 50, pointer 200 50]"
        "pointer 200 50"] n
    by blast
qed

text \<open>
  The callback has fired once on a grid that has just been constructed: no event has been
  delivered and no edit committed.
\<close>

theorem callBack_at_construction:
  "callBacks (snd (run example_grid [])) = 1 \<and> commit_count example_grid [] = 0"
  by code_simp

text \<open>
  C8: on a grid constructed read-only no listener is registered, so every sequence of
  pointer events leaves the whole grid, and with it the slots, as constructed, no handler
  runs, and the callback is never invoked, not even at construction.
\<close>

theorem readOnly_ignores_events:
  assumes "readOnly_p p"
  shows "run (Grid w p) evs = ([], Grid w p) \<and> callBacks (Grid w p) = 0 \<and>
         times_g (Grid w p) = constructTimesArray (gridStr p)"
proof -
  have obs: "observers (Grid w p) = []"
    using assms by (simp add: Grid_def constructCanvas_def)
  have "observers g = [] \<Longrightarrow> run g evs = ([], g)" for g
    by (induction evs) (simp_all add: dispatch_def)
  with obs show ?thesis
    using assms by (simp add: Grid_callBacks times_g_Grid)
qed

theorem readOnly_ignores_events_witness:
  "run example_readOnly
     [Mousedown (pointer 100 50), Mousemove (pointer 200 50), Mouseup (pointer 200 50),
      Mouseout (pointer 0 90)] = ([], example_readOnly) \<and>
   callBacks example_readOnly = 0 \<and>
   times_g example_readOnly = constructTimesArray (Some example_str)"
proof -
  have h: "readOnly_p \<lparr>gridStr = Some example_str, readOnly_p = True\<rparr>" by simp
  show ?thesis
    using readOnly_ignores_events [OF h, of example_world
        "[Mousedown (pointer 100 50), Mousemove (pointer 200 50), Mouseup (pointer 200 50),
          Mouseout (pointer 0 90)]"]
    by (simp add: example_readOnly_def)
qed

subsection \<open>Errors\<close>

text \<open>
  C3 asks that every handler completes without raising an error, in particular a mouse-up
  delivered while no drag range is active. The code does not: on a grid that has just been
  constructed with its listeners, a mouse-up makes \<^verbatim>\<open>saveDrag\<close> read
  \<^verbatim>\<open>r.start\<close> of an undefined range, and the listener ends with a TypeError. The same
  happens to the mouse-up that follows a drag already committed by a mouse-out at the
  right edge.
\<close>

theorem mouseup_without_range_throws:
  "dispatch (Grid w \<lparr>gridStr = s, readOnly_p = False\<rparr>) (Mouseup e)
     = Inl (TypeError, Grid w \<lparr>gridStr = s, readOnly_p = False\<rparr>) \<and>
   fst (run example_grid
          [Mousedown (pointer 900 50), Mousemove (pointer 945 50), Mouseout (pointer 960 50),
           Mouseup (pointer 940 50)]) = [TypeError]"
proof
  show "dispatch (Grid w \<lparr>gridStr = s, readOnly_p = False\<rparr>) (Mouseup e)
     = Inl (TypeError, Grid w \<lparr>gridStr = s, readOnly_p = False\<rparr>)"
    by (simp add: dispatch_def Grid_def constructCanvas_def mouseupHandler_def saveDrag_def)
  show "fst (run example_grid
          [Mousedown (pointer 900 50), Mousemove (pointer 945 50), Mouseout (pointer 960 50),
           Mouseup (pointer 940 50)]) = [TypeError]"
    by code_simp
qed

theorem mouseup_without_range_throws_witness:
  "dispatch example_grid (Mouseup (pointer 940 50)) = Inl (TypeError, example_grid)"
  using mouseup_without_range_throws [of example_world None "pointer 940 50"]
  by (simp add: example_grid_def)

subsection \<open>Encoding and decoding\<close>

text \<open>
  C4: for every array \<open>s\<close> of exactly 96 valid duty values, decoding the encoding of \<open>s\<close>
  gives back the same duty value in every slot; equivalently, decoding a string of 96
  characters and encoding the result gives back the string. The decoded array holds its
  duty numbers as one-character strings, so it is equal to \<open>s\<close> element for element when
  \<open>s\<close> holds strings, and equal as a sequence of duty values when \<open>s\<close> holds numbers.
\<close>

theorem decode_encode_roundtrip:
  "(length (elems (times_g g)) = 96 \<and> (\<forall>v\<in>set (elems (times_g g)). duty_of v \<noteq> None) \<longrightarrow>
      map duty_of (elems (times_g (Grid w \<lparr>gridStr = Some (toString g), readOnly_p = ro\<rparr>)))
        = map duty_of (elems (times_g g))) \<and>
   (length (elems (times_g g)) = 96 \<and> (\<forall>v\<in>set (elems (times_g g)). is_char v) \<longrightarrow>
      elems (times_g (Grid w \<lparr>gridStr = Some (toString g), readOnly_p = ro\<rparr>))
        = elems (times_g g)) \<and>
   (length s = 96 \<longrightarrow> toString (Grid w \<lparr>gridStr = Some s, readOnly_p = ro\<rparr>) = s)"
proof (intro conjI impI)
  assume a: "length (elems (times_g g)) = 96 \<and> (\<forall>v\<in>set (elems (times_g g)). duty_of v \<noteq> None)"
  let ?xs = "elems (times_g g)"
  have str: "toString g = map (\<lambda>v. digit_char (the (duty_of v))) ?xs"
    using a by (simp add: toString_def join_def join_valid)
  then have len: "length (toString g) = 96" using a by simp
  have "duty_of (Str [digit_char (the (duty_of v))]) = duty_of v" if "v \<in> set ?xs" for v
  proof -
    from a that obtain k where k: "duty_of v = Some k" by auto
    then show ?thesis using duty_of_Str_digit [OF k] by simp
  qed
  then have "map duty_of (map (\<lambda>c. Str [c]) (toString g)) = map duty_of ?xs"
    unfolding str by simp
  then show "map duty_of (elems (times_g (Grid w \<lparr>gridStr = Some (toString g), readOnly_p = ro\<rparr>)))
        = map duty_of ?xs"
    by (simp add: times_g_Grid constructTimesArray_96 [OF len])
next
  assume a: "length (elems (times_g g)) = 96 \<and> (\<forall>v\<in>set (elems (times_g g)). is_char v)"
  then have len: "length (toString g) = 96"
    by (simp add: toString_def join_def length_join_chars)
  have "map (\<lambda>c. Str [c]) (toString g) = elems (times_g g)"
    using a by (simp add: toString_def join_def split_join_chars)
  then show "elems (times_g (Grid w \<lparr>gridStr = Some (toString g), readOnly_p = ro\<rparr>))
        = elems (times_g g)"
    by (simp add: times_g_Grid constructTimesArray_96 [OF len])
next
  assume "length s = 96"
  then show "toString (Grid w \<lparr>gridStr = Some s, readOnly_p = ro\<rparr>) = s"
    by (simp add: toString_def join_def times_g_Grid constructTimesArray_96 comp_def)
qed

theorem decode_encode_roundtrip_witness:
  "map duty_of (elems (times_g (Grid example_world
       \<lparr>gridStr = Some (toString example_grid), readOnly_p = False\<rparr>)))
     = map duty_of (elems (times_g example_grid)) \<and>
   elems (times_g (Grid example_world
       \<lparr>gridStr = Some (toString example_decoded), readOnly_p = False\<rparr>))
     = elems (times_g example_decoded) \<and>
   toString (Grid example_world \<lparr>gridStr = Some example_str, readOnly_p = False\<rparr>) = example_str"
proof -
  have h1: "length (elems (times_g example_grid)) = 96 \<and>
            (\<forall>v\<in>set (elems (times_g example_grid)). duty_of v \<noteq> None)"
    by code_simp
  have h2: "length (elems (times_g example_decoded)) = 96 \<and>
            (\<forall>v\<in>set (elems (times_g example_decoded)). is_char v)"
    by code_simp
  have h3: "length example_str = 96" by code_simp
  have c1: "map duty_of (elems (times_g (Grid example_world
       \<lparr>gridStr = Some (toString example_grid), readOnly_p = False\<rparr>)))
     = map duty_of (elems (times_g example_grid))"
    using decode_encode_roundtrip [of example_grid example_world False example_str] h1
    by blast
  have c2: "elems (times_g (Grid example_world
       \<lparr>gridStr = Some (toString example_decoded), readOnly_p = False\<rparr>))
     = elems (times_g example_decoded)"
    using decode_encode_roundtrip [of example_decoded example_world False example_str] h2
    by blast
  have c3: "toString (Grid example_world \<lparr>gridStr = Some example_str, readOnly_p = False\<rparr>)
     = example_str"
    using decode_encode_roundtrip [of example_grid example_world False example_str] h3
    by blast
  from c1 c2 c3 show ?thesis by blast
qed

text \<open>
  C9: decoding an absent string, or any string whose length is not 96 (the empty string
  among them), yields the default array of 96 slots holding the duty number 1 (off duty);
  the constructor returns this array normally, no error is raised.
\<close>

theorem constructTimesArray_fallback:
  "constructTimesArray None = \<lparr>elems = replicate 96 (Num 1), props = []\<rparr> \<and>
   times_g (Grid w \<lparr>gridStr = None, readOnly_p = ro\<rparr>)
     = \<lparr>elems = replicate 96 (Num 1), props = []\<rparr> \<and>
   (length s \<noteq> 96 \<longrightarrow>
      constructTimesArray (Some s) = \<lparr>elems = replicate 96 (Num 1), props = []\<rparr> \<and>
      times_g (Grid w \<lparr>gridStr = Some s, readOnly_p = ro\<rparr>)
        = \<lparr>elems = replicate 96 (Num 1), props = []\<rparr>)"
  by (simp add: constructTimesArray_else times_g_Grid)

theorem constructTimesArray_fallback_witness:
  "constructTimesArray None = \<lparr>elems = replicate 96 (Num 1), props = []\<rparr> \<and>
   constructTimesArray (Some ''1234'') = \<lparr>elems = replicate 96 (Num 1), props = []\<rparr> \<and>
   constructTimesArray (Some []) = \<lparr>elems = replicate 96 (Num 1), props = []\<rparr>"
  using constructTimesArray_fallback [of example_world False "''1234''"]
    constructTimesArray_fallback [of example_world False "[]"]
  by simp

subsection \<open>Pointer coordinates\<close>




subsection \<open>Hour totals\<close>

text \<open>
  C6, as the code has it: for \<open>0 \<le> a < b \<le> 96\<close> and a duty \<open>d\<close> of 1 to 4, when every
  slot of \<open>[a, b)\<close> held one and the same duty \<open>p\<close> before and \<open>p\<close> differs from \<open>d\<close>,
  committing \<open>[a, b)\<close> with \<open>d\<close> changes exactly two entries of the totals: the one of \<open>d\<close>
  grows by \<open>(b - a) / 4\<close> hours, the one of \<open>p\<close> shrinks by as much, and the other two
  are unchanged.
\<close>

theorem set_then_totals:
  assumes "0 \<le> a" and "a < b" and "b \<le> 96"
    and "length (elems (times_g g)) = 96"
    and "drag g = \<lparr>range_d = Some \<lparr>start_r = a, end_r = b\<rparr>, duty_d = Num (int d)\<rparr>"
    and "1 \<le> d" and "d \<le> 4"
    and "\<forall>i\<in>{nat a..<nat b}. duty_of (elems (times_g g) ! i) = Some p"
    and "p \<noteq> d"
  shows "\<exists>g' T T'. saveDrag g = Inr g' \<and> getHourTotals g = Some T \<and> getHourTotals g' = Some T' \<and>
           map fst T = types \<and> map fst T' = types \<and>
           (\<forall>i<4. snd (T' ! i) = snd (T ! i) +
              (if i + 1 = d then of_int (b - a) / 4
               else if i + 1 = p then - (of_int (b - a) / 4) else 0))"
proof -
  let ?xs = "elems (times_g g)"
  let ?n = "nat (b - a)"
  let ?r = "\<lparr>start_r = a, end_r = b\<rparr>"
  let ?g' = "g\<lparr>times_g := saveLoop a b (Num (int d)) (times_g g),
               drag := \<lparr>range_d = None, duty_d = Undefined\<rparr>\<rparr>"
  let ?pre = "concat (map join_item (take (nat a) ?xs))"
  let ?post = "concat (map join_item (drop (nat b) ?xs))"
  have sd: "saveDrag g = Inr ?g'"
    using saveDrag_Some [of g ?r] assms(5) by simp
  have b_len: "b \<le> int (length ?xs)" using assms(3,4) by simp
  have ys: "elems (saveLoop a b (Num (int d)) (times_g g)) = take (nat a) ?xs @ replicate ?n (Num (int d)) @ drop (nat b) ?xs"
    using saveLoop_list [of a b "times_g g" "Num (int d)"] assms(1,2) b_len by simp
  have split: "?xs = take (nat a) ?xs @ take ?n (drop (nat a) ?xs) @ drop (nat b) ?xs"
  proof -
    have "nat b = nat a + ?n" using assms(1,2) by simp
    then show ?thesis using take_mid_drop [of "nat a" ?xs ?n] by simp
  qed
  have mid_len: "length (take ?n (drop (nat a) ?xs)) = ?n"
    using assms(1-4) by simp
  have mid_p: "\<forall>v\<in>set (take ?n (drop (nat a) ?xs)). duty_of v = Some p"
  proof
    fix v assume "v \<in> set (take ?n (drop (nat a) ?xs))"
    then obtain j where j: "j < ?n" "v = take ?n (drop (nat a) ?xs) ! j"
      using mid_len by (auto simp: in_set_conv_nth)
    then have "v = ?xs ! (nat a + j)" using assms(1-4) by simp
    moreover have "nat a + j \<in> {nat a..<nat b}" using j(1) assms(1,2) by auto
    ultimately show "duty_of v = Some p" using assms(8) by blast
  qed
  have p_range: "1 \<le> p \<and> p \<le> 4"
  proof -
    have "nat a \<in> {nat a..<nat b}" using assms(1,2) by simp
    then have "duty_of (?xs ! nat a) = Some p" using assms(8) by blast
    then show ?thesis by (rule duty_of_range)
  qed
  have mid_old: "concat (map join_item (take ?n (drop (nat a) ?xs))) = replicate ?n (digit_char p)"
    using join_uniform [OF mid_p] mid_len by simp
  have mid_new: "concat (map join_item (replicate ?n (Num (int d)))) = replicate ?n (digit_char d)"
    using join_uniform [of "replicate ?n (Num (int d))" d] assms(6,7) by simp
  have old: "toString g = ?pre @ replicate ?n (digit_char p) @ ?post"
  proof -
    have "toString g = concat (map join_item (take (nat a) ?xs @ take ?n (drop (nat a) ?xs) @ drop (nat b) ?xs))"
      using split by (simp add: toString_def join_def)
    then show ?thesis using mid_old by simp
  qed
  have new: "toString ?g' = ?pre @ replicate ?n (digit_char d) @ ?post"
  proof -
    have "toString ?g' = ?pre @ concat (map join_item (replicate ?n (Num (int d)))) @ ?post"
      by (simp add: toString_def join_def ys)
    then show ?thesis by (simp only: mid_new)
  qed
  have cnt: "count_digit k (toString ?g') + (if p = k then ?n else 0)
           = count_digit k (toString g) + (if d = k then ?n else 0)"
    if "1 \<le> k" "k \<le> 4" for k
    using that p_range assms(6,7)
    by (simp add: old new count_digit_append count_digit_replicate)
  have tot: "total (toString ?g') i = total (toString g) i +
              (if i + 1 = d then of_int (b - a) / 4
               else if i + 1 = p then - (of_int (b - a) / 4) else 0)"
    if "i < 4" for i
  proof -
    have k: "1 \<le> i + 1" "i + 1 \<le> 4" using that by simp_all
    have n: "(of_nat ?n :: rat) = of_int (b - a)" using assms(2) by simp
    have "(of_nat (count_digit (i + 1) (toString ?g') + (if p = i + 1 then ?n else 0)) :: rat)
        = of_nat (count_digit (i + 1) (toString g) + (if d = i + 1 then ?n else 0))"
      using cnt [OF k] by simp
    then show ?thesis
      using assms(9) n by (auto simp: total_count_digit field_simps split: if_splits)
  qed
  have ne: "?xs \<noteq> []" using assms(4) by auto
  have ne': "elems (times_g ?g') \<noteq> []" using ys assms(2) by auto
  let ?T = "[(''off'', total (toString g) 0), (''sleeper'', total (toString g) 1),
     (''drive'', total (toString g) 2), (''onduty'', total (toString g) 3)]"
  let ?T' = "[(''off'', total (toString ?g') 0), (''sleeper'', total (toString ?g') 1),
     (''drive'', total (toString ?g') 2), (''onduty'', total (toString ?g') 3)]"
  have nths: "\<forall>i<4. snd (?T' ! i) = total (toString ?g') i \<and> snd (?T ! i) = total (toString g) i"
    by (auto simp: less_Suc_eq numeral_2_eq_2 numeral_3_eq_3 eval_nat_numeral)
  have "\<forall>i<4. snd (?T' ! i) = snd (?T ! i) +
              (if i + 1 = d then of_int (b - a) / 4
               else if i + 1 = p then - (of_int (b - a) / 4) else 0)"
    using nths tot by simp
  moreover have "map fst ?T = types" "map fst ?T' = types" by (simp_all add: types_def)
  moreover have "getHourTotals g = Some ?T" using getHourTotals_Some [OF ne] .
  moreover have "getHourTotals ?g' = Some ?T'" using getHourTotals_Some [OF ne'] .
  ultimately show ?thesis using sd by blast
qed

theorem set_then_totals_witness:
  "\<exists>g' T T'. saveDrag dragging = Inr g' \<and> getHourTotals dragging = Some T \<and>
        getHourTotals g' = Some T' \<and> map fst T = types \<and> map fst T' = types \<and>
        (\<forall>i<4. snd (T' ! i) = snd (T ! i) +
           (if i + 1 = 3 then of_int (20 - 10) / 4
            else if i + 1 = 1 then - (of_int (20 - 10) / 4) else 0))"
proof -
  have h1: "(0::int) \<le> 10" "(10::int) < 20" "(20::int) \<le> 96" by simp_all
  have h2: "length (elems (times_g dragging)) = 96" by code_simp
  have h3: "drag dragging = \<lparr>range_d = Some \<lparr>start_r = 10, end_r = 20\<rparr>, duty_d = Num (int 3)\<rparr>"
    by code_simp
  have h4: "(1::nat) \<le> 3" "(3::nat) \<le> 4" by simp_all
  have h5: "\<forall>i\<in>{nat 10..<nat 20}. duty_of (elems (times_g dragging) ! i) = Some 1"
    by code_simp
  have h6: "(1::nat) \<noteq> 3" by simp
  show ?thesis
    by (rule set_then_totals [OF h1 h2 h3 h4 h5 h6])
qed

text \<open>
  Painting off duty over slots 0 to 3 of the default grid, which are off duty already,
  changes no entry of the totals.
\<close>

theorem set_same_duty_totals_unchanged:
  "drag (snd (run example_grid [Mousedown (pointer 0 1), Mousemove (pointer 40 1)]))
     = \<lparr>range_d = Some \<lparr>start_r = 0, end_r = 4\<rparr>, duty_d = Num 1\<rparr> \<and>
   getHourTotals example_grid
     = Some [(''off'', 24), (''sleeper'', 0), (''drive'', 0), (''onduty'', 0)] \<and>
   getHourTotals (snd (run example_grid
       [Mousedown (pointer 0 1), Mousemove (pointer 40 1), Mouseup (pointer 40 1)]))
     = Some [(''off'', 24), (''sleeper'', 0), (''drive'', 0), (''onduty'', 0)]"
  by code_simp

text \<open>
  C10: for every array of exactly 96 slots, each holding a valid duty number 1 to 4,
  \<^verbatim>\<open>getHourTotals\<close> returns the four totals, each of them is nonnegative, and they sum
  to exactly 24.
\<close>

theorem getHourTotals_sum:
  assumes "length (elems (times_g g)) = 96"
    and "\<forall>v\<in>set (elems (times_g g)). duty_of v \<noteq> None"
  shows "\<exists>a b c d.
     getHourTotals g = Some [(''off'', a), (''sleeper'', b), (''drive'', c), (''onduty'', d)] \<and>
     0 \<le> a \<and> 0 \<le> b \<and> 0 \<le> c \<and> 0 \<le> d \<and> a + b + c + d = 24"
proof -
  let ?s = "toString g"
  have ne: "elems (times_g g) \<noteq> []" using assms(1) by auto
  have "count_digit 1 ?s + count_digit 2 ?s + count_digit 3 ?s + count_digit 4 ?s = 96"
    using count_digit_valid_sum [OF assms(2)] assms(1) by (simp add: toString_def join_def)
  then have "(of_nat (count_digit 1 ?s + count_digit 2 ?s + count_digit 3 ?s + count_digit 4 ?s) :: rat) = 96"
    by simp
  then have sum: "total ?s 0 + total ?s 1 + total ?s 2 + total ?s 3 = 24"
    by (simp add: total_count_digit numeral_2_eq_2 numeral_3_eq_3 eval_nat_numeral add_divide_distrib [symmetric])
  have nonneg: "0 \<le> total ?s i" for i by (simp add: total_count_digit)
  show ?thesis
    using getHourTotals_Some [OF ne] sum nonneg by simp
qed

theorem getHourTotals_sum_witness:
  "\<exists>a b c d.
     getHourTotals example_decoded
       = Some [(''off'', a), (''sleeper'', b), (''drive'', c), (''onduty'', d)] \<and>
     0 \<le> a \<and> 0 \<le> b \<and> 0 \<le> c \<and> 0 \<le> d \<and> a + b + c + d = 24"
proof -
  have h1: "length (elems (times_g example_decoded)) = 96" by code_simp
  have h2: "\<forall>v\<in>set (elems (times_g example_decoded)). duty_of v \<noteq> None" by code_simp
  show ?thesis
    by (rule getHourTotals_sum [OF h1 h2])
qed

end
